theory Spec2Isabelle
  imports
    Complex_Main
    "HOL-Library.Char_ord"
    "HOL-Library.List_Lexorder"
    "HOL-Library.Product_Lexorder"
    "HOL-Library.Multiset"
begin

section \<open>The chart browser of CBL_Report.py\<close>

text \<open>
  The theory embeds the pure and the stateful parts of \<^verbatim>\<open>CBL_Report.py\<close>: the
  namespace prefix, the session-state store, the figure loader, the catalog scan, sorting,
  filtering, pagination and the batch display loop.

  Python strings are modelled by \<^typ>\<open>string\<close>: a character is a code point below 256,
  ordered by its code (\<open>Char_ord\<close>), and strings are ordered lexicographically
  (\<open>List_Lexorder\<close>), as Python compares \<^verbatim>\<open>str\<close> values. Tuples are ordered
  lexicographically (\<open>Product_Lexorder\<close>), as Python compares tuples.
\<close>

subsection \<open>Strings\<close>

text \<open>
  \<^verbatim>\<open>str.lower()\<close> on code points below 256: the upper-case letters are A to Z and the
  Latin-1 letters 192 to 222 without the multiplication sign 215; each lies 32 below its
  lower-case letter.
\<close>

definition lower_char :: "char \<Rightarrow> char" where
  "lower_char c =
     (let n = (of_char c :: nat)
      in if (65 \<le> n \<and> n \<le> 90) \<or> (192 \<le> n \<and> n \<le> 222 \<and> n \<noteq> 215)
         then char_of (n + 32) else c)"

definition lower :: "string \<Rightarrow> string" where
  "lower s = map lower_char s"

text \<open>\<^verbatim>\<open>t in s\<close> on strings: \<open>t\<close> occurs in \<open>s\<close> as a contiguous block.\<close>

fun str_in :: "string \<Rightarrow> string \<Rightarrow> bool" where
  "str_in t [] = (t = [])"
| "str_in t (c # cs) = (take (length t) (c # cs) = t \<or> str_in t cs)"

text \<open>The reading of "contains" that the claims use: some text before, the block, some text after.\<close>

definition contains :: "string \<Rightarrow> string \<Rightarrow> bool" where
  "contains s t = (\<exists>u v. s = u @ t @ v)"

text \<open>\<^verbatim>\<open>s.split('_')[0]\<close>: the text before the first underscore (all of \<open>s\<close> without one).\<close>

definition split_first :: "string \<Rightarrow> string" where
  "split_first s = takeWhile (\<lambda>c. c \<noteq> CHR ''_'') s"

subsection \<open>File metadata\<close>

text \<open>
  A metadata tuple \<^verbatim>\<open>(name, last_modified, size, path)\<close> of type
  \<^verbatim>\<open>Tuple[str, str, int, str]\<close>; \<open>meta0\<close> to \<open>meta3\<close> are \<^verbatim>\<open>x[0]\<close> to \<^verbatim>\<open>x[3]\<close>.
\<close>

type_synonym chart_metadata = "string \<times> string \<times> int \<times> string"

definition meta0 :: "chart_metadata \<Rightarrow> string" where
  "meta0 x = fst x"

definition meta1 :: "chart_metadata \<Rightarrow> string" where
  "meta1 x = fst (snd x)"

definition meta2 :: "chart_metadata \<Rightarrow> int" where
  "meta2 x = fst (snd (snd x))"

definition meta3 :: "chart_metadata \<Rightarrow> string" where
  "meta3 x = snd (snd (snd x))"

subsection \<open>Filtering\<close>

text \<open>
  \<^verbatim>\<open>filter_charts\<close>: the search term is the lowered query; with no search term and no
  selected type the input is returned as it is; otherwise the comprehension keeps the files
  whose lowered name has the search term and, when types are selected, whose raw name has one
  of them.
\<close>

definition filter_charts ::
  "chart_metadata list \<Rightarrow> string \<Rightarrow> string list \<Rightarrow> chart_metadata list" where
  "filter_charts files_metadata search_query selected_types =
     (let search_term = (if search_query \<noteq> [] then lower search_query else [])
      in if search_term = [] \<and> selected_types = [] then files_metadata
         else filter
                (\<lambda>f. str_in search_term (lower (meta0 f)) \<and>
                     (selected_types = [] \<or> list_ex (\<lambda>t. str_in t (meta0 f)) selected_types))
                files_metadata)"

subsection \<open>Exceptions\<close>

text \<open>
  An exception is its class and the text \<^verbatim>\<open>str(e)\<close> gives. \<open>OtherError\<close> stands for
  every class under \<^verbatim>\<open>Exception\<close> that no handler of the program names
  (\<^verbatim>\<open>PermissionError\<close>, \<^verbatim>\<open>UnicodeDecodeError\<close>, ...); \<open>Exception\<close> is the class
  \<^verbatim>\<open>Exception\<close> itself, which the program raises.
\<close>

datatype exn_class =
  FileNotFoundError | JSONDecodeError | ValueError | KeyError | TypeError
  | ZeroDivisionError | OtherError | Exception

datatype exn = Raise exn_class string

fun class_of :: "exn \<Rightarrow> exn_class" where
  "class_of (Raise c m) = c"

fun str_of :: "exn \<Rightarrow> string" where
  "str_of (Raise c m) = m"

subsection \<open>Paths\<close>

text \<open>
  A relative POSIX path is the list of its components; the program builds all its paths from
  \<^verbatim>\<open>Path("assets")\<close> and \<^verbatim>\<open>Path("")\<close>. \<open>as_posix\<close> of the empty path is a dot.
\<close>

datatype path = Path "string list"

fun parts :: "path \<Rightarrow> string list" where
  "parts (Path cs) = cs"

fun join_slash :: "string list \<Rightarrow> string" where
  "join_slash [] = []"
| "join_slash [c] = c"
| "join_slash (c # d # cs) = c @ CHR ''/'' # join_slash (d # cs)"

definition as_posix :: "path \<Rightarrow> string" where
  "as_posix p = (if parts p = [] then ''.'' else join_slash (parts p))"

definition path_name :: "path \<Rightarrow> string" where
  "path_name p = (if parts p = [] then [] else last (parts p))"

text \<open>\<^verbatim>\<open>parent / name\<close>, the paths that \<^verbatim>\<open>iterdir\<close> and \<^verbatim>\<open>glob\<close> yield.\<close>

definition child :: "path \<Rightarrow> string \<Rightarrow> path" where
  "child p n = Path (parts p @ [n])"

text \<open>\<^verbatim>\<open>Path(text)\<close> for a relative text: split at slashes, empty and dot components dropped.\<close>

fun split_slash :: "string \<Rightarrow> string \<Rightarrow> string list" where
  "split_slash acc [] = [rev acc]"
| "split_slash acc (c # cs) =
     (if c = CHR ''/'' then rev acc # split_slash [] cs else split_slash (c # acc) cs)"

definition path_of :: "string \<Rightarrow> path" where
  "path_of s = Path (filter (\<lambda>c. c \<noteq> [] \<and> c \<noteq> ''.'') (split_slash [] s))"

definition replace_slash :: "string \<Rightarrow> string" where
  "replace_slash s = map (\<lambda>c. if c = CHR ''/'' then CHR ''_'' else c) s"

definition get_page_prefix :: "path \<Rightarrow> string" where
  "get_page_prefix chart_dir = ''page_'' @ replace_slash (as_posix chart_dir) @ ''_''"

subsection \<open>Session state and rendered output\<close>

text \<open>
  \<^verbatim>\<open>st.session_state\<close> is a dictionary from key texts to values. The values the program
  stores are \<^verbatim>\<open>None\<close>, booleans, integers, strings, lists of strings and tuples of metadata.
\<close>

datatype val =
  VNone | VBool bool | VInt int | VStr string | VList "string list" | VFiles "chart_metadata list"

type_synonym session_state = "string \<rightharpoonup> val"

fun truthy :: "val \<Rightarrow> bool" where
  "truthy VNone = False"
| "truthy (VBool b) = b"
| "truthy (VInt i) = (i \<noteq> 0)"
| "truthy (VStr s) = (s \<noteq> [])"
| "truthy (VList l) = (l \<noteq> [])"
| "truthy (VFiles fs) = (fs \<noteq> [])"

text \<open>A figure of the plotting library: its document and the height of its layout.\<close>

datatype figure = Figure string "int option"

text \<open>
  What a run does to the outside, in order: the boxes it renders (the HTML around a message is
  left out), the log calls, the charts, and the files it opens. Spinners are transient and are
  not recorded.
\<close>

datatype event =
  Error_box string | Log_error string | Warning_box string | Info_box string
  | Plain_box string | Log_info string | Metadata_box chart_metadata
  | Plotly_chart figure string | Open_file path

text \<open>
  The state a run works on: the session state, the page rendered so far, and the cache of
  the loader with the clock it reads. A cache entry is a path, the text loaded for it and
  the time it was stored. The program reads the clock and never sets it.
\<close>

record world =
  session :: session_state
  page :: "event list"
  cache :: "(path \<times> string \<times> nat) list"
  now :: nat

definition emit :: "event list \<Rightarrow> world \<Rightarrow> world" where
  "emit es w = w\<lparr>page := page w @ es\<rparr>"

text \<open>
  The collaborators outside the program: the file system, the clock formatting, the plotting
  library, and the texts of the exceptions that the interpreter and the framework raise
  (\<open>error_text c x\<close> for class \<open>c\<close> about \<open>x\<close>).
\<close>

record stat_result =
  st_mtime :: real
  st_size :: int

record env =
  error_text :: "exn_class \<Rightarrow> string \<Rightarrow> string"
  is_dir :: "path \<Rightarrow> bool"
  glob_json :: "path \<Rightarrow> exn + string list"
  stat :: "path \<Rightarrow> exn + stat_result"
  strftime :: "real \<Rightarrow> exn + string"
  read_text :: "path \<Rightarrow> exn + string"
  from_json :: "string \<Rightarrow> exn + figure"
  fig_bool :: "figure \<Rightarrow> bool"

text \<open>
  \<^verbatim>\<open>fig.update_layout(height=h)\<close>: the plotting library refuses a height below 10 with
  \<^verbatim>\<open>ValueError\<close>.
\<close>

definition update_layout :: "env \<Rightarrow> int \<Rightarrow> figure \<Rightarrow> exn + figure" where
  "update_layout E h fig =
     (if h < 10 then Inl (Raise ValueError (error_text E ValueError ''height''))
      else Inr (case fig of Figure d l \<Rightarrow> Figure d (Some h)))"

text \<open>\<^verbatim>\<open>st.session_state[key]\<close>: a missing key raises \<^verbatim>\<open>KeyError\<close>.\<close>

definition lookup :: "env \<Rightarrow> session_state \<Rightarrow> string \<Rightarrow> exn + val" where
  "lookup E s k = (case s k of None \<Rightarrow> Inl (Raise KeyError (error_text E KeyError k)) | Some v \<Rightarrow> Inr v)"

text \<open>
  A value read for arithmetic: an integer, or a boolean as 0 or 1. With any other value the
  page arithmetic below ends in \<^verbatim>\<open>TypeError\<close>.
\<close>

fun as_int :: "val \<Rightarrow> int option" where
  "as_int (VInt i) = Some i"
| "as_int (VBool b) = Some (if b then 1 else 0)"
| "as_int v = None"

definition lookup_int :: "env \<Rightarrow> session_state \<Rightarrow> string \<Rightarrow> exn + int" where
  "lookup_int E s k =
     (case lookup E s k of
        Inl e \<Rightarrow> Inl e
      | Inr v \<Rightarrow> (case as_int v of
                   None \<Rightarrow> Inl (Raise TypeError (error_text E TypeError k))
                 | Some i \<Rightarrow> Inr i))"

definition DEFAULT_PAGE_SIZE :: int where
  "DEFAULT_PAGE_SIZE = 10"

definition SESSION_STATE_VARS :: "(string \<times> val) list" where
  "SESSION_STATE_VARS =
     [(''search_query'', VStr []),
      (''selected_types'', VList []),
      (''page_number'', VInt 0),
      (''sort_by'', VStr ''Size''),
      (''page_size'', VInt DEFAULT_PAGE_SIZE),
      (''all_files'', VFiles []),
      (''selected_chart'', VNone),
      (''loading'', VBool False),
      (''error'', VNone),
      (''filtered_files'', VFiles []),
      (''use_async'', VBool False),
      (''loading_all_charts'', VBool False)]"

fun init_loop :: "string \<Rightarrow> (string \<times> val) list \<Rightarrow> session_state \<Rightarrow> session_state" where
  "init_loop page_prefix [] s = s"
| "init_loop page_prefix ((key, default_value) # rest) s =
     init_loop page_prefix rest
       (if s (page_prefix @ key) = None then s(page_prefix @ key \<mapsto> default_value) else s)"

definition init_session_state :: "string \<Rightarrow> world \<Rightarrow> world" where
  "init_session_state page_prefix w = w\<lparr>session := init_loop page_prefix SESSION_STATE_VARS (session w)\<rparr>"

definition update_session_state :: "string \<Rightarrow> string \<Rightarrow> val \<Rightarrow> world \<Rightarrow> world" where
  "update_session_state page_prefix key v w = w\<lparr>session := (session w)(page_prefix @ key \<mapsto> v)\<rparr>"

definition clear_error :: "string \<Rightarrow> world \<Rightarrow> world" where
  "clear_error page_prefix w = update_session_state page_prefix ''error'' VNone w"

definition handle_error :: "string \<Rightarrow> string \<Rightarrow> string \<Rightarrow> world \<Rightarrow> world" where
  "handle_error page_prefix error_message error_type w =
     (let w1 = update_session_state page_prefix ''error'' (VStr error_message) w
      in if error_type = ''error''
         then emit [Error_box error_message, Log_error (''Error: '' @ error_message)] w1
         else if error_type = ''warning'' then emit [Warning_box error_message] w1
         else if error_type = ''info'' then emit [Info_box error_message] w1
         else emit [Plain_box error_message, Log_info (''Info: '' @ error_message)] w1)"

subsection \<open>Sorting\<close>

text \<open>
  \<^verbatim>\<open>sorted(xs, key=k, reverse=r)\<close> is stable; with \<^verbatim>\<open>reverse=True\<close> the list is
  reversed, sorted and reversed again, so that equal keys keep the order of the input.
\<close>

definition py_sorted :: "('a \<Rightarrow> 'k::linorder) \<Rightarrow> bool \<Rightarrow> 'a list \<Rightarrow> 'a list" where
  "py_sorted key reverse xs = (if reverse then rev (sort_key key (rev xs)) else sort_key key xs)"

text \<open>The three lambdas of \<^verbatim>\<open>SORT_KEYS\<close>, and the dictionary.\<close>

datatype key_fn = Key_name_lower | Key_last_modified | Key_size

definition SORT_KEYS :: "string \<rightharpoonup> key_fn" where
  "SORT_KEYS = [''Name'' \<mapsto> Key_name_lower, ''Last Modified'' \<mapsto> Key_last_modified,
                ''Size'' \<mapsto> Key_size]"

text \<open>\<^verbatim>\<open>d.get(k)\<close>: the value, or \<^verbatim>\<open>None\<close> for a missing key; it raises nothing.\<close>

definition dict_get :: "('k \<rightharpoonup> 'v) \<Rightarrow> 'k \<Rightarrow> 'v option" where
  "dict_get d k = d k"

text \<open>\<^verbatim>\<open>sorted\<close> on metadata tuples; \<^verbatim>\<open>key=None\<close> compares the tuples themselves.\<close>

fun sorted_files :: "chart_metadata list \<Rightarrow> key_fn option \<Rightarrow> bool \<Rightarrow> chart_metadata list" where
  "sorted_files xs None r = py_sorted (\<lambda>x. x) r xs"
| "sorted_files xs (Some Key_name_lower) r = py_sorted (\<lambda>x. lower (meta0 x)) r xs"
| "sorted_files xs (Some Key_last_modified) r = py_sorted (\<lambda>x. meta1 x) r xs"
| "sorted_files xs (Some Key_size) r = py_sorted (\<lambda>x. meta2 x) r xs"

text \<open>
  The body of the \<^verbatim>\<open>try\<close> in \<^verbatim>\<open>sort_files\<close>. Neither \<^verbatim>\<open>dict.get\<close> nor the comparison of
  strings, integers and tuples of them raises, so the body always returns.
\<close>

definition sort_files_try :: "chart_metadata list \<Rightarrow> string \<Rightarrow> exn + chart_metadata list" where
  "sort_files_try files sort_by =
     Inr (sorted_files files (dict_get SORT_KEYS sort_by) (sort_by \<noteq> ''Name''))"

text \<open>
  \<^verbatim>\<open>sort_files\<close>: the handler of \<^verbatim>\<open>KeyError\<close> reports the warning and returns the
  input; every other exception leaves the function.
\<close>

definition sort_files ::
  "chart_metadata list \<Rightarrow> string \<Rightarrow> world \<Rightarrow> (exn + chart_metadata list) \<times> world" where
  "sort_files files sort_by w =
     (case sort_files_try files sort_by of
        Inr r \<Rightarrow> (Inr r, w)
      | Inl e \<Rightarrow>
          if class_of e = KeyError
          then (Inr files,
                handle_error (get_page_prefix (Path []))
                  (''Invalid sort key: '' @ sort_by @ ''. Using default sorting.'') ''warning'' w)
          else (Inl e, w))"

subsection \<open>Pagination\<close>

text \<open>
  \<^verbatim>\<open>xs[i:j]\<close>: a negative bound counts from the end, and every bound is cut to the range
  from 0 to the length.
\<close>

definition py_slice :: "'a list \<Rightarrow> int \<Rightarrow> int \<Rightarrow> 'a list" where
  "py_slice xs i j =
     (let n = int (length xs);
          lo = (if i < 0 then max 0 (i + n) else min i n);
          hi = (if j < 0 then max 0 (j + n) else min j n)
      in drop (nat lo) (take (nat hi) xs))"

text \<open>The three lines of the pagination logic in \<^verbatim>\<open>main\<close> and \<^verbatim>\<open>display_all_charts\<close>.\<close>

definition page_slice :: "'a list \<Rightarrow> int \<Rightarrow> int \<Rightarrow> 'a list" where
  "page_slice filtered_files page_number page_size =
     (let start_index = page_number * page_size;
          end_index = min ((page_number + 1) * page_size) (int (length filtered_files))
      in py_slice filtered_files start_index end_index)"

text \<open>
  \<^verbatim>\<open>total_pages\<close> of \<^verbatim>\<open>display_pagination_controls\<close>; the floor division raises
  \<^verbatim>\<open>ZeroDivisionError\<close> at page size 0.
\<close>

definition total_pages :: "env \<Rightarrow> 'a list \<Rightarrow> int \<Rightarrow> exn + int" where
  "total_pages E filtered_files page_size =
     (if page_size = 0 then Inl (Raise ZeroDivisionError (error_text E ZeroDivisionError []))
      else Inr ((int (length filtered_files) + page_size - 1) div page_size))"

text \<open>
  The pagination logic of \<^verbatim>\<open>main\<close>, up to the branch for an empty page: the page number is
  read from the session state, the page is cut out, and an empty page is reported as an info
  message and clears the flag \<open>loading_all_charts\<close>. The page number is not written.
\<close>

definition main_pagination ::
  "env \<Rightarrow> string \<Rightarrow> chart_metadata list \<Rightarrow> int \<Rightarrow> world \<Rightarrow> (exn + chart_metadata list) \<times> world" where
  "main_pagination E page_prefix filtered_files page_size w =
     (case lookup_int E (session w) (page_prefix @ ''page_number'') of
        Inl e \<Rightarrow> (Inl e, w)
      | Inr page_number \<Rightarrow>
          (let current_page_files = page_slice filtered_files page_number page_size
           in if current_page_files = []
              then (Inr [],
                    update_session_state page_prefix ''loading_all_charts'' (VBool False)
                      (handle_error page_prefix ''No charts match the selected filters.'' ''info'' w))
              else (Inr current_page_files, w)))"

subsection \<open>Catalog scan\<close>

definition get_all_json_files :: "env \<Rightarrow> path \<Rightarrow> world \<Rightarrow> path list \<times> world" where
  "get_all_json_files E directory w =
     (if \<not> is_dir E directory
      then ([], handle_error (get_page_prefix directory)
                  (''Directory not found at: '' @ as_posix directory) ''error'' w)
      else (case glob_json E directory of
              Inr names \<Rightarrow> (map (child directory) names, w)
            | Inl e \<Rightarrow> ([], handle_error (get_page_prefix directory)
                              (''Error getting JSON files: '' @ str_of e) ''error'' w)))"

text \<open>The body of the \<^verbatim>\<open>try\<close> in \<^verbatim>\<open>get_file_metadata\<close>: the stat call, then the formatting.\<close>

definition get_file_metadata_try :: "env \<Rightarrow> path \<Rightarrow> exn + chart_metadata" where
  "get_file_metadata_try E file_path =
     (case stat E file_path of
        Inl e \<Rightarrow> Inl e
      | Inr s \<Rightarrow>
          (case strftime E (st_mtime s) of
             Inl e \<Rightarrow> Inl e
           | Inr t \<Rightarrow> Inr (path_name file_path, t, st_size s, as_posix file_path)))"

definition get_file_metadata :: "env \<Rightarrow> path \<Rightarrow> exn + chart_metadata" where
  "get_file_metadata E file_path =
     (case get_file_metadata_try E file_path of
        Inr m \<Rightarrow> Inr m
      | Inl e \<Rightarrow>
          if class_of e = FileNotFoundError
          then Inr (path_name file_path, ''N/A'', 0, as_posix file_path)
          else Inl (Raise Exception
                      (''Error getting metadata for '' @ path_name file_path @ '': '' @ str_of e)))"

text \<open>A list comprehension over a function that may raise: the first exception ends it.\<close>

fun map_exn :: "('a \<Rightarrow> exn + 'b) \<Rightarrow> 'a list \<Rightarrow> exn + 'b list" where
  "map_exn f [] = Inr []"
| "map_exn f (x # xs) =
     (case f x of
        Inl e \<Rightarrow> Inl e
      | Inr y \<Rightarrow> (case map_exn f xs of Inl e \<Rightarrow> Inl e | Inr ys \<Rightarrow> Inr (y # ys)))"

text \<open>
  The scan at the start of \<^verbatim>\<open>main\<close>: \<open>Inr True\<close> goes on with the catalog,
  \<open>Inr False\<close> is the \<^verbatim>\<open>return\<close> for a directory without files, \<open>Inl\<close> an exception on its
  way to the handler of \<^verbatim>\<open>main\<close>.
\<close>

definition main_scan :: "env \<Rightarrow> path \<Rightarrow> string \<Rightarrow> world \<Rightarrow> (exn + bool) \<times> world" where
  "main_scan E chart_dir page_prefix w =
     (case lookup E (session w) (page_prefix @ ''all_files'') of
        Inl e \<Rightarrow> (Inl e, w)
      | Inr v \<Rightarrow>
          if truthy v then (Inr True, w)
          else (case get_all_json_files E chart_dir w of
                  (all_files_paths, w1) \<Rightarrow>
                    if all_files_paths = [] then (Inr False, w1)
                    else (case map_exn (get_file_metadata E) all_files_paths of
                            Inl e \<Rightarrow> (Inl e, w1)
                          | Inr all_files_metadata \<Rightarrow>
                              (Inr True,
                               update_session_state page_prefix ''all_files''
                                 (VFiles all_files_metadata) w1))))"

text \<open>The handler that closes \<^verbatim>\<open>main\<close>.\<close>

definition main_except :: "string \<Rightarrow> (exn + 'a) \<times> world \<Rightarrow> world" where
  "main_except page_prefix rw =
     (case fst rw of
        Inl e \<Rightarrow> handle_error page_prefix (''An unexpected error occurred: '' @ str_of e) ''error'' (snd rw)
      | Inr x \<Rightarrow> snd rw)"

subsection \<open>Figure loader and chart display\<close>

text \<open>
  The three \<^verbatim>\<open>except\<close> clauses of the loader, for the file name \<open>name\<close>. The text of a
  \<^verbatim>\<open>JSONDecodeError\<close> built with an empty document and position 0 ends with the position.
\<close>

definition load_except :: "string \<Rightarrow> exn \<Rightarrow> exn" where
  "load_except name e =
     (if class_of e = FileNotFoundError
      then Raise FileNotFoundError (''Chart file not found at: '' @ name)
      else if class_of e = JSONDecodeError
      then Raise JSONDecodeError
             (''Could not decode chart at '' @ name @ ''. Please check if the file is valid JSON''
              @ '': line 1 column 1 (char 0)'')
      else Raise Exception (''An unexpected error occurred loading chart '' @ name @ '': '' @ str_of e))"

text \<open>
  Modelled from the spec: the cache that the decorator
  \<^verbatim>\<open>@st.cache_data(ttl=3600, max_entries=10)\<close> puts around \<^verbatim>\<open>load_figure_json\<close>; the
  code of the decorator is not part of the repository. "Entries expire after a fixed
  duration and the cache holds a bounded number of most-recent entries": an entry is live
  for 3600 seconds after it was stored, and at most the 10 entries stored last are kept.
\<close>

definition cache_ttl :: nat where
  "cache_ttl = 3600"

definition cache_max_entries :: nat where
  "cache_max_entries = 10"

definition cache_live :: "nat \<Rightarrow> path \<times> string \<times> nat \<Rightarrow> bool" where
  "cache_live t e = (t < snd (snd e) + cache_ttl)"

definition cache_get :: "world \<Rightarrow> path \<Rightarrow> string option" where
  "cache_get w p =
     (case filter (\<lambda>e. fst e = p \<and> cache_live (now w) e) (cache w) of
        [] \<Rightarrow> None
      | e # es \<Rightarrow> Some (fst (snd e)))"

definition cache_put :: "path \<Rightarrow> string \<Rightarrow> world \<Rightarrow> world" where
  "cache_put p t w =
     (let kept = filter (\<lambda>e. fst e \<noteq> p \<and> cache_live (now w) e) (cache w);
          l = kept @ [(p, t, now w)]
      in w\<lparr>cache := drop (length l - cache_max_entries) l\<rparr>)"

text \<open>
  The body of \<^verbatim>\<open>load_figure_json\<close>: the file is opened and read; an empty text raises
  \<^verbatim>\<open>ValueError\<close> inside the \<^verbatim>\<open>try\<close>, so the clauses above see it too.
\<close>

definition load_figure_json_body :: "env \<Rightarrow> path \<Rightarrow> world \<Rightarrow> (exn + string) \<times> world" where
  "load_figure_json_body E json_file w =
     (let w1 = emit [Open_file json_file] w
      in case read_text E json_file of
           Inl e \<Rightarrow> (Inl (load_except (path_name json_file) e), w1)
         | Inr fig_json \<Rightarrow>
             if fig_json = []
             then (Inl (load_except (path_name json_file)
                          (Raise ValueError (''Empty JSON file: '' @ path_name json_file))), w1)
             else (Inr fig_json, w1))"

text \<open>
  \<^verbatim>\<open>load_figure_json\<close> as decorated: a live entry for the path is returned and the body
  does not run; otherwise the body runs, and a text it returns is stored. A call that raises
  stores nothing.
\<close>

definition load_figure_json :: "env \<Rightarrow> path \<Rightarrow> world \<Rightarrow> (exn + string) \<times> world" where
  "load_figure_json E json_file w =
     (case cache_get w json_file of
        Some fig_json \<Rightarrow> (Inr fig_json, w)
      | None \<Rightarrow>
          (case load_figure_json_body E json_file w of
             (Inl e, w1) \<Rightarrow> (Inl e, w1)
           | (Inr fig_json, w1) \<Rightarrow> (Inr fig_json, cache_put json_file fig_json w1)))"

text \<open>
  The asynchronous loader is not decorated: it opens and reads on every call. The read runs
  on a worker and is awaited.
\<close>

definition load_figure_json_async :: "env \<Rightarrow> path \<Rightarrow> world \<Rightarrow> (exn + string) \<times> world" where
  "load_figure_json_async E json_file w =
     (let w1 = emit [Open_file json_file] w
      in case read_text E json_file of
           Inl e \<Rightarrow> (Inl (load_except (path_name json_file) e), w1)
         | Inr fig_json \<Rightarrow>
             if fig_json = []
             then (Inl (load_except (path_name json_file)
                          (Raise ValueError (''Empty JSON file: '' @ path_name json_file))), w1)
             else (Inr fig_json, w1))"

definition display_metadata :: "chart_metadata \<Rightarrow> world \<Rightarrow> world" where
  "display_metadata chart_metadata w = emit [Metadata_box chart_metadata] w"

text \<open>The handler of \<^verbatim>\<open>display_chart\<close>: every exception of the \<^verbatim>\<open>try\<close> becomes an error box.\<close>

definition display_chart_except :: "string \<Rightarrow> chart_metadata \<Rightarrow> exn \<Rightarrow> world \<Rightarrow> world" where
  "display_chart_except page_prefix chart_metadata e w =
     handle_error page_prefix
       (''Error displaying chart '' @ meta0 chart_metadata @ '': '' @ str_of e) ''error'' w"

definition display_chart ::
  "env \<Rightarrow> string \<Rightarrow> chart_metadata \<Rightarrow> int \<Rightarrow> bool \<Rightarrow> world \<Rightarrow> world" where
  "display_chart E page_prefix chart_metadata chart_height use_async w =
     (if meta3 chart_metadata = []
      then handle_error page_prefix ''Invalid chart metadata provided or file path missing'' ''error'' w
      else
        (let chart_path = path_of (meta3 chart_metadata)
         in case (if use_async then load_figure_json_async E chart_path w
                  else load_figure_json E chart_path w) of
              (Inl e, w1) \<Rightarrow> display_chart_except page_prefix chart_metadata e w1
            | (Inr fig_json, w1) \<Rightarrow>
                (case from_json E fig_json of
                   Inl e \<Rightarrow> display_chart_except page_prefix chart_metadata e w1
                 | Inr fig \<Rightarrow>
                     if fig_bool E fig
                     then (case update_layout E chart_height fig of
                             Inl e \<Rightarrow> display_chart_except page_prefix chart_metadata e w1
                           | Inr fig' \<Rightarrow>
                               emit [Plotly_chart fig' (meta0 chart_metadata)] w1)
                     else w1)))"

subsection \<open>Batch display\<close>

text \<open>
  The loop of \<^verbatim>\<open>display_all_charts\<close> reads the flag \<open>loading_all_charts\<close> from the
  session state before every item and leaves at the first item that finds it clear. The
  body of the loop does not write the flag.
\<close>

fun display_loop ::
  "env \<Rightarrow> string \<Rightarrow> int \<Rightarrow> bool \<Rightarrow> chart_metadata list \<Rightarrow> world \<Rightarrow> (exn + unit) \<times> world" where
  "display_loop E page_prefix chart_height use_async [] w = (Inr (), w)"
| "display_loop E page_prefix chart_height use_async (chart_metadata # rest) w =
     (case lookup E (session w) (page_prefix @ ''loading_all_charts'') of
        Inl e \<Rightarrow> (Inl e, w)
      | Inr v \<Rightarrow>
          if truthy v
          then (let w1 = display_metadata chart_metadata w;
                    w2 = display_chart E page_prefix chart_metadata chart_height use_async w1
                in display_loop E page_prefix chart_height use_async rest w2)
          else (Inr (), w))"

text \<open>The body of the \<^verbatim>\<open>try\<close> in \<^verbatim>\<open>display_all_charts\<close>.\<close>

definition display_all_charts_try ::
  "env \<Rightarrow> string \<Rightarrow> chart_metadata list \<Rightarrow> int \<Rightarrow> bool \<Rightarrow> world \<Rightarrow> (exn + unit) \<times> world" where
  "display_all_charts_try E page_prefix filtered_files chart_height use_async w =
     (if filtered_files = []
      then (Inr (), handle_error page_prefix ''No charts to display'' ''info'' w)
      else
        (case lookup E (session w) (page_prefix @ ''page_number'') of
           Inl e \<Rightarrow> (Inl e, w)
         | Inr pn \<Rightarrow>
             (case lookup E (session w) (page_prefix @ ''page_size'') of
                Inl e \<Rightarrow> (Inl e, w)
              | Inr ps \<Rightarrow>
                  (case (as_int pn, as_int ps) of
                     (Some page_number, Some page_size) \<Rightarrow>
                       (let current_page_files = page_slice filtered_files page_number page_size
                        in if current_page_files = []
                           then (Inr (), handle_error page_prefix ''No charts on this page'' ''info'' w)
                           else display_loop E page_prefix chart_height use_async
                                  current_page_files w)
                   | _ \<Rightarrow> (Inl (Raise TypeError (error_text E TypeError (page_prefix @ ''page_number''))),
                           w)))))"

text \<open>The handler reports an exception of the body; the \<^verbatim>\<open>finally\<close> clause clears the flag.\<close>

definition display_all_charts ::
  "env \<Rightarrow> string \<Rightarrow> chart_metadata list \<Rightarrow> int \<Rightarrow> bool \<Rightarrow> world \<Rightarrow> world" where
  "display_all_charts E page_prefix filtered_files chart_height use_async w =
     (case display_all_charts_try E page_prefix filtered_files chart_height use_async w of
        (Inl e, w1) \<Rightarrow>
          update_session_state page_prefix ''loading_all_charts'' (VBool False)
            (handle_error page_prefix
               (''An unexpected error occurred while displaying charts: '' @ str_of e) ''error'' w1)
      | (Inr u, w1) \<Rightarrow> update_session_state page_prefix ''loading_all_charts'' (VBool False) w1)"

subsection \<open>The cancel button and the Previous button\<close>

text \<open>
  \<^verbatim>\<open>st.button("Cancel Loading", disabled=..., key=...)\<close> and the line under it. The
  framework keeps the value of a widget that has a key in the session state, under that
  key. \<open>clicked\<close> says that a click of the user on this button has started the run; a
  disabled button is not pressed.
\<close>

definition cancel_button :: "env \<Rightarrow> string \<Rightarrow> bool \<Rightarrow> world \<Rightarrow> (exn + unit) \<times> world" where
  "cancel_button E page_prefix clicked w =
     (case lookup E (session w) (page_prefix @ ''loading_all_charts'') of
        Inl e \<Rightarrow> (Inl e, w)
      | Inr v \<Rightarrow>
          (let disabled = \<not> truthy v;
               pressed = (clicked \<and> \<not> disabled);
               w1 = w\<lparr>session := (session w)(page_prefix @ ''cancel_loading'' \<mapsto> VBool pressed)\<rparr>
           in if pressed
              then (Inr (), update_session_state page_prefix ''loading_all_charts'' (VBool False) w1)
              else (Inr (), w1)))"

text \<open>The branch of \<^verbatim>\<open>main\<close> for the choice "Show All Charts".\<close>

definition show_all_charts ::
  "env \<Rightarrow> string \<Rightarrow> chart_metadata list \<Rightarrow> int \<Rightarrow> bool \<Rightarrow> bool \<Rightarrow> world
   \<Rightarrow> (exn + unit) \<times> world" where
  "show_all_charts E page_prefix filtered_files chart_height use_async clicked w =
     (case lookup E (session w) (page_prefix @ ''loading_all_charts'') of
        Inl e \<Rightarrow> (Inl e, w)
      | Inr v \<Rightarrow>
          cancel_button E page_prefix clicked
            (if \<not> truthy v
             then display_all_charts E page_prefix filtered_files chart_height use_async
                    (update_session_state page_prefix ''loading_all_charts'' (VBool True) w)
             else w))"

text \<open>
  \<^verbatim>\<open>prev_disabled\<close> of \<^verbatim>\<open>display_pagination_controls\<close>: the page number is at most 0,
  or the field \<open>loading\<close> is set.
\<close>

definition prev_disabled :: "env \<Rightarrow> string \<Rightarrow> world \<Rightarrow> exn + bool" where
  "prev_disabled E page_prefix w =
     (case lookup_int E (session w) (page_prefix @ ''page_number'') of
        Inl e \<Rightarrow> Inl e
      | Inr page_number \<Rightarrow>
          if page_number \<le> 0 then Inr True
          else (case lookup E (session w) (page_prefix @ ''loading'') of
                  Inl e \<Rightarrow> Inl e
                | Inr v \<Rightarrow> Inr (truthy v)))"

subsection \<open>Auxiliary notions for the namespace keys\<close>

text \<open>The part of the prefix that all entries of one parent directory share.\<close>

definition prefix_stem :: "path \<Rightarrow> string" where
  "prefix_stem parent =
     ''page_'' @ (if parts parent = [] then [] else replace_slash (join_slash (parts parent)) @ ''_'')"

text \<open>No name of the list is another name of the list behind an underscore and some text.\<close>

definition no_field_tail :: "string list \<Rightarrow> bool" where
  "no_field_tail ks =
     list_all (\<lambda>k1. list_all (\<lambda>k2. \<not> (length k1 < length k2 \<and>
        drop (length k2 - Suc (length k1)) k2 = CHR ''_'' # k1)) ks) ks"


subsection \<open>The texts of the loading errors\<close>




subsection \<open>Sample data\<close>

text \<open>The directory of the filtering scenario, and files whose names differ in letter case.\<close>

definition revenue_q1 :: chart_metadata where
  "revenue_q1 = (''revenue_q1.json'', ''2024-01-03 10:00:00'', 120, ''assets/sales/revenue_q1.json'')"

definition revenue_q2 :: chart_metadata where
  "revenue_q2 = (''revenue_q2.json'', ''2024-04-02 09:30:00'', 340, ''assets/sales/revenue_q2.json'')"

definition users_q1 :: chart_metadata where
  "users_q1 = (''users_q1.json'', ''2024-01-05 08:15:00'', 75, ''assets/sales/users_q1.json'')"

definition Revenue_q3 :: chart_metadata where
  "Revenue_q3 = (''Revenue_q3.json'', ''2024-07-01 12:00:00'', 340, ''assets/sales/Revenue_q3.json'')"

definition w0 :: world where
  "w0 = \<lparr>session = Map.empty, page = [], cache = [], now = 0\<rparr>"

text \<open>A sample of the outside world: three chart files in \<open>assets/sales\<close>.\<close>

definition sales :: path where
  "sales = Path [''assets'', ''sales'']"

definition E0 :: env where
  "E0 = \<lparr>error_text = (\<lambda>c x. x),
          is_dir = (\<lambda>p. p = sales),
          glob_json = (\<lambda>p. Inr [''revenue_q1.json'', ''revenue_q2.json'', ''users_q1.json'']),
          stat = (\<lambda>p. if p = child sales ''revenue_q2.json''
                      then Inl (Raise FileNotFoundError ''[Errno 2] No such file or directory'')
                      else Inr \<lparr>st_mtime = 0, st_size = 120\<rparr>),
          strftime = (\<lambda>t. Inr ''1970-01-01 00:00:00''),
          read_text = (\<lambda>p. if p = child sales ''revenue_q1.json'' then Inr ''{}''
                           else if p = child sales ''revenue_q2.json'' then Inr []
                           else if p = child sales ''users_q1.json'' then Inr ''{''
                           else Inl (Raise FileNotFoundError ''[Errno 2] No such file or directory'')),
          from_json = (\<lambda>t. if t = ''{}'' then Inr (Figure t None)
                           else Inl (Raise JSONDecodeError
                                  ''Expecting property name enclosed in double quotes: line 1 column 2 (char 1)'')),
          fig_bool = (\<lambda>f. True)\<rparr>"

text \<open>
  A session of the dashboard \<open>assets/sales\<close> that stands on the third page: the state that
  is left when the user has paged forward through a long list.
\<close>

definition sales_prefix :: string where
  "sales_prefix = get_page_prefix sales"

definition w_sales :: world where
  "w_sales = update_session_state sales_prefix ''page_number'' (VInt 2)
               (init_session_state sales_prefix w0)"

text \<open>The same world, where the stat call on one file is refused for lack of permission.\<close>

definition E1 :: env where
  "E1 = E0\<lparr>stat := (\<lambda>p. if p = child sales ''revenue_q2.json''
                          then Inl (Raise OtherError ''[Errno 13] Permission denied'')
                          else Inr \<lparr>st_mtime = 0, st_size = 120\<rparr>)\<rparr>"

definition w_init :: world where
  "w_init = init_session_state sales_prefix w0"

text \<open>A catalog entry whose file has been removed since the scan.\<close>

definition gone :: chart_metadata where
  "gone = (''gone.json'', ''2024-02-01 00:00:00'', 10, ''assets/sales/gone.json'')"

text \<open>A page of five charts, and the session in which line 416 has just set the flag.\<close>

definition five :: "chart_metadata list" where
  "five = [revenue_q1, revenue_q2, users_q1, gone, Revenue_q3]"





text \<open>Two dashboards under \<open>assets\<close>: the directories \<open>x\<close> and \<open>x_cancel\<close>.\<close>

definition assets :: path where
  "assets = Path [''assets'']"

definition dash_x :: string where
  "dash_x = get_page_prefix (child assets ''x'')"

definition dash_x_cancel :: string where
  "dash_x_cancel = get_page_prefix (child assets ''x_cancel'')"

section \<open>Properties\<close>

subsection \<open>Strings\<close>

lemma str_in_contains: "str_in t s = contains s t"
proof (induction s)
  case Nil
  show ?case by (auto simp: contains_def)
next
  case (Cons c cs)
  show ?case
  proof
    assume "str_in t (c # cs)"
    then consider "take (length t) (c # cs) = t" | "str_in t cs" by auto
    then show "contains (c # cs) t"
    proof cases
      case 1
      then have "c # cs = [] @ t @ drop (length t) (c # cs)"
        by (metis append_Nil append_take_drop_id)
      then show ?thesis unfolding contains_def by blast
    next
      case 2
      then obtain u v where "cs = u @ t @ v" using Cons.IH by (auto simp: contains_def)
      then have "c # cs = (c # u) @ t @ v" by simp
      then show ?thesis unfolding contains_def by blast
    qed
  next
    assume "contains (c # cs) t"
    then obtain u v where uv: "c # cs = u @ t @ v" by (auto simp: contains_def)
    show "str_in t (c # cs)"
    proof (cases u)
      case Nil
      then have "take (length t) (c # cs) = t" using uv by simp
      then show ?thesis by simp
    next
      case (Cons a u')
      then have "cs = u' @ t @ v" using uv by simp
      then have "contains cs t" unfolding contains_def by blast
      then show ?thesis using Cons.IH by simp
    qed
  qed
qed

lemma lower_empty: "lower s = [] \<longleftrightarrow> s = []"
  by (simp add: lower_def)

lemma lower_char_idem: "lower_char (lower_char c) = lower_char c"
proof -
  have "of_char (char_of (of_char c + 32 :: nat)) = (of_char c + 32 :: nat)"
    if "(of_char c :: nat) \<le> 222"
    using that by simp
  then show ?thesis
    by (auto simp: lower_char_def Let_def)
qed

lemma lower_idem: "lower (lower s) = lower s"
  by (simp add: lower_def lower_char_idem)

lemma char_eq_char_of: "(c = char_of (n::nat)) = (take_bit 8 n = of_char c)"
  using char_of_eq_iff [of n c] by blast

lemmas lower_eval = lower_def lower_char_def char_of_eq_iff char_eq_char_of Let_def
  less_char_def less_eq_char_def

lemmas meta_eval = meta0_def meta1_def meta2_def meta3_def

subsection \<open>Filtering\<close>

text \<open>
  Claim C6. For every metadata list \<open>L\<close>, search string \<open>s\<close> and list of selected types
  \<open>T\<close>, \<open>filter_charts\<close> keeps exactly the items whose lowered name contains the lowered
  \<open>s\<close> and, when \<open>T\<close> is not empty, whose name contains a token of \<open>T\<close>; with an empty
  \<open>s\<close> and an empty \<open>T\<close> it returns \<open>L\<close>.
\<close>

theorem filter_charts_keeps_exactly:
  "filter_charts L s T =
     filter (\<lambda>f. contains (lower (meta0 f)) (lower s) \<and>
                 (T = [] \<or> (\<exists>t \<in> set T. contains (meta0 f) t))) L
   \<and> filter_charts L [] [] = L"
proof
  have c0: "\<And>x. contains x []" by (auto simp: contains_def)
  show "filter_charts L s T =
     filter (\<lambda>f. contains (lower (meta0 f)) (lower s) \<and>
                 (T = [] \<or> (\<exists>t \<in> set T. contains (meta0 f) t))) L"
  proof (cases "s = [] \<and> T = []")
    case True
    then show ?thesis by (simp add: filter_charts_def lower_def c0)
  next
    case False
    then show ?thesis
      by (auto simp: filter_charts_def Let_def lower_empty str_in_contains list_ex_iff c0 lower_def
          intro!: filter_cong)
  qed
  show "filter_charts L [] [] = L" by (simp add: filter_charts_def)
qed

text \<open>The scenario of the specification: the search and then the type filter.\<close>

theorem filter_charts_keeps_exactly_witness:
  "filter (\<lambda>f. contains (lower (meta0 f)) (lower ''revenue'') \<and>
               ([] = ([]::string list) \<or> (\<exists>t \<in> set []. contains (meta0 f) t)))
     [revenue_q1, revenue_q2, users_q1] = [revenue_q1, revenue_q2]
   \<and> filter (\<lambda>f. contains (lower (meta0 f)) (lower []) \<and>
               ([''users''] = [] \<or> (\<exists>t \<in> set [''users'']. contains (meta0 f) t)))
     [revenue_q1, revenue_q2, users_q1] = [users_q1]"
proof -
  have a: "filter_charts [revenue_q1, revenue_q2, users_q1] ''revenue'' [] = [revenue_q1, revenue_q2]"
    by (simp add: filter_charts_def revenue_q1_def revenue_q2_def users_q1_def lower_eval meta_eval)
  have b: "filter_charts [revenue_q1, revenue_q2, users_q1] [] [''users''] = [users_q1]"
    by (simp add: filter_charts_def revenue_q1_def revenue_q2_def users_q1_def lower_eval meta_eval)
  show ?thesis
    using filter_charts_keeps_exactly [of "[revenue_q1, revenue_q2, users_q1]" "''revenue''" "[]"]
      filter_charts_keeps_exactly [of "[revenue_q1, revenue_q2, users_q1]" "[]" "[''users'']"] a b
    by simp
qed

text \<open>
  Claim C10. The search string is matched without regard to letter case (lowering it changes
  nothing, and an upper-case search finds a lower-case name), while a selected type is
  matched against the raw name: the file \<open>Revenue_q3.json\<close> has the type \<open>Revenue\<close>, which
  equals the selected \<open>revenue\<close> when both are lowered, and is excluded; with the selected
  type \<open>Revenue\<close> it is kept.
\<close>

theorem filter_charts_type_case_sensitive:
  "filter_charts L (lower s) T = filter_charts L s T
   \<and> filter_charts [revenue_q1, Revenue_q3] ''REVENUE'' [] = [revenue_q1, Revenue_q3]
   \<and> lower (split_first (meta0 Revenue_q3)) = lower ''revenue''
   \<and> filter_charts [revenue_q1, Revenue_q3] [] [''revenue''] = [revenue_q1]
   \<and> filter_charts [revenue_q1, Revenue_q3] [] [''Revenue''] = [Revenue_q3]"
proof -
  have "filter_charts L (lower s) T = filter_charts L s T"
    by (simp add: filter_charts_def lower_idem lower_empty)
  moreover have "filter_charts [revenue_q1, Revenue_q3] ''REVENUE'' [] = [revenue_q1, Revenue_q3]"
    by (simp add: filter_charts_def revenue_q1_def Revenue_q3_def lower_eval meta_eval)
  moreover have "lower (split_first (meta0 Revenue_q3)) = lower ''revenue''"
    by (simp add: split_first_def Revenue_q3_def lower_eval meta_eval)
  moreover have "filter_charts [revenue_q1, Revenue_q3] [] [''revenue''] = [revenue_q1]"
    by (simp add: filter_charts_def revenue_q1_def Revenue_q3_def lower_eval meta_eval)
  moreover have "filter_charts [revenue_q1, Revenue_q3] [] [''Revenue''] = [Revenue_q3]"
    by (simp add: filter_charts_def revenue_q1_def Revenue_q3_def lower_eval meta_eval)
  ultimately show ?thesis by simp
qed

theorem filter_charts_type_case_sensitive_witness:
  "filter_charts [revenue_q1, Revenue_q3] (lower ''ReV'') [''Revenue''] = [Revenue_q3]
   \<and> filter_charts [revenue_q1, Revenue_q3] ''ReV'' [''Revenue''] = [Revenue_q3]"
proof -
  have "filter_charts [revenue_q1, Revenue_q3] ''ReV'' [''Revenue''] = [Revenue_q3]"
    by (simp add: filter_charts_def revenue_q1_def Revenue_q3_def lower_eval meta_eval)
  then show ?thesis
    using filter_charts_type_case_sensitive [of "[revenue_q1, Revenue_q3]" "''ReV''" "[''Revenue'']"]
    by simp
qed

subsection \<open>Sorting\<close>

lemma py_sorted_mset: "mset (py_sorted k r xs) = mset xs"
  by (simp add: py_sorted_def)

lemma py_sorted_asc: "sorted (map k (py_sorted k False xs))"
  by (simp add: py_sorted_def)

lemma py_sorted_desc: "sorted (rev (map k (py_sorted k True xs)))"
  by (simp add: py_sorted_def rev_map[symmetric])

lemma py_sorted_stable: "filter (\<lambda>y. k y = v) (py_sorted k r xs) = filter (\<lambda>y. k y = v) xs"
  by (simp add: py_sorted_def sort_key_stable rev_filter[symmetric])

text \<open>
  Claim C5. With the key \<open>Name\<close>, \<open>sort_files\<close> returns a rearrangement of its input in
  ascending order of the lowered name; with \<open>Last Modified\<close> or \<open>Size\<close>, in descending order
  of that field. The order is the linear order of the field, the output page is not touched,
  and files with equal keys keep the order of the input.
\<close>

theorem sort_files_direction:
  "(\<exists>r. sort_files files ''Name'' w = (Inr r, w) \<and> mset r = mset files \<and>
        sorted (map (\<lambda>x. lower (meta0 x)) r) \<and>
        (\<forall>v. filter (\<lambda>x. lower (meta0 x) = v) r = filter (\<lambda>x. lower (meta0 x) = v) files)) \<and>
   (\<exists>r. sort_files files ''Last Modified'' w = (Inr r, w) \<and> mset r = mset files \<and>
        sorted (rev (map meta1 r)) \<and>
        (\<forall>v. filter (\<lambda>x. meta1 x = v) r = filter (\<lambda>x. meta1 x = v) files)) \<and>
   (\<exists>r. sort_files files ''Size'' w = (Inr r, w) \<and> mset r = mset files \<and>
        sorted (rev (map meta2 r)) \<and>
        (\<forall>v. filter (\<lambda>x. meta2 x = v) r = filter (\<lambda>x. meta2 x = v) files))"
  by (simp add: sort_files_def sort_files_try_def dict_get_def SORT_KEYS_def
      py_sorted_mset py_sorted_asc py_sorted_desc py_sorted_stable)

theorem sort_files_direction_witness:
  "(\<exists>r. sort_files [revenue_q1, users_q1, Revenue_q3, revenue_q2] ''Size'' w0 = (Inr r, w0) \<and>
        mset r = mset [revenue_q1, users_q1, Revenue_q3, revenue_q2] \<and>
        sorted (rev (map meta2 r)))
   \<and> sort_files [revenue_q1, users_q1, Revenue_q3, revenue_q2] ''Name'' w0 =
       (Inr [revenue_q1, revenue_q2, Revenue_q3, users_q1], w0)
   \<and> sort_files [revenue_q1, users_q1, Revenue_q3, revenue_q2] ''Last Modified'' w0 =
       (Inr [Revenue_q3, revenue_q2, users_q1, revenue_q1], w0)
   \<and> sort_files [revenue_q1, users_q1, Revenue_q3, revenue_q2] ''Size'' w0 =
       (Inr [Revenue_q3, revenue_q2, revenue_q1, users_q1], w0)"
proof -
  have a: "sort_files [revenue_q1, users_q1, Revenue_q3, revenue_q2] ''Name'' w0 =
       (Inr [revenue_q1, revenue_q2, Revenue_q3, users_q1], w0)"
    by (simp add: sort_files_def sort_files_try_def dict_get_def SORT_KEYS_def py_sorted_def
        revenue_q1_def revenue_q2_def users_q1_def Revenue_q3_def lower_eval meta_eval)
  have b: "sort_files [revenue_q1, users_q1, Revenue_q3, revenue_q2] ''Last Modified'' w0 =
       (Inr [Revenue_q3, revenue_q2, users_q1, revenue_q1], w0)"
    by (simp add: sort_files_def sort_files_try_def dict_get_def SORT_KEYS_def py_sorted_def
        revenue_q1_def revenue_q2_def users_q1_def Revenue_q3_def meta_eval)
  have c: "sort_files [revenue_q1, users_q1, Revenue_q3, revenue_q2] ''Size'' w0 =
       (Inr [Revenue_q3, revenue_q2, revenue_q1, users_q1], w0)"
    by (simp add: sort_files_def sort_files_try_def dict_get_def SORT_KEYS_def py_sorted_def
        revenue_q1_def revenue_q2_def users_q1_def Revenue_q3_def meta_eval)
  show ?thesis
    using sort_files_direction [of "[revenue_q1, users_q1, Revenue_q3, revenue_q2]" w0] a b c
    by blast
qed

text \<open>
  With a key outside the dictionary, \<open>dict_get\<close> gives \<open>None\<close> and the flag \<open>reverse\<close> is
  set: the files come back in descending order of the tuples, and nothing is reported.
\<close>

lemma sort_files_unknown_key:
  assumes "sort_by \<noteq> ''Name''" "sort_by \<noteq> ''Last Modified''" "sort_by \<noteq> ''Size''"
  shows "sort_files files sort_by w = (Inr (rev (sort (rev files))), w)"
  using assms
  by (simp add: sort_files_def sort_files_try_def dict_get_def SORT_KEYS_def py_sorted_def)

text \<open>
  Claim C1. For a sort key outside \<open>Name\<close>, \<open>Last Modified\<close> and \<open>Size\<close> the claim expects a
  warning and the input in its order. The function raises nothing, but at the key \<open>Bogus\<close>
  and the list of \<open>revenue_q1\<close> followed by \<open>users_q1\<close> it returns the two files in the
  opposite order and leaves the session state and the page as they were: no warning.
\<close>

theorem sort_files_bogus_key:
  "sort_files [revenue_q1, users_q1] ''Bogus'' w = (Inr [users_q1, revenue_q1], w)
   \<and> [users_q1, revenue_q1] \<noteq> [revenue_q1, users_q1]"
  by (simp add: sort_files_def sort_files_try_def dict_get_def SORT_KEYS_def py_sorted_def
      revenue_q1_def users_q1_def)

subsection \<open>Pagination\<close>

lemma py_slice_nat:
  "py_slice xs (int a) (int b) = drop (min a (length xs)) (take (min b (length xs)) xs)"
proof -
  have lo: "min (int a) (int (length xs)) = int (min a (length xs))" by (simp only: of_nat_min)
  have hi: "min (int b) (int (length xs)) = int (min b (length xs))" by (simp only: of_nat_min)
  have na: "\<not> int a < 0" and nb: "\<not> int b < 0" by simp_all
  show ?thesis
    unfolding py_slice_def Let_def
    by (simp only: na nb if_False lo hi nat_int)
qed

lemma page_slice_nat:
  assumes "0 < p"
  shows "page_slice L (int i) p =
           drop (i * nat p) (take (min ((i + 1) * nat p) (length L)) L)"
proof -
  obtain q where q: "p = int q" using assms by (metis nat_0_le less_imp_le)
  have a: "int i * int q = int (i * q)" by (simp only: of_nat_mult)
  have b: "(int i + 1) * int q = int ((i + 1) * q)" by (simp only: of_nat_mult of_nat_add of_nat_1)
  have c: "min (int ((i + 1) * q)) (int (length L)) = int (min ((i + 1) * q) (length L))"
    by (simp only: of_nat_min)
  have "page_slice L (int i) (int q) =
      drop (min (i * q) (length L)) (take (min (min ((i + 1) * q) (length L)) (length L)) L)"
    unfolding page_slice_def Let_def
    by (simp only: a b c py_slice_nat)
  also have "\<dots> = drop (min (i * q) (length L)) (take (min ((i + 1) * q) (length L)) L)"
    by (simp only: min.assoc min.idem)
  also have "\<dots> = drop (i * q) (take (min ((i + 1) * q) (length L)) L)"
  proof (cases "i * q \<le> length L")
    case True
    then show ?thesis by (simp only: min.absorb1)
  next
    case False
    then have "min (i * q) (length L) = length L" by (simp only: min_def if_False)
    then show ?thesis using False by simp
  qed
  finally show ?thesis by (simp only: q nat_int)
qed

lemma drop_take_nth: "b \<le> length xs \<Longrightarrow> drop a (take b xs) = map (\<lambda>j. xs ! j) [a..<b]"
  by (rule nth_equalityI) auto

lemma concat_pages_take:
  "concat (map (\<lambda>i. drop (i * q) (take (min ((i + 1) * q) (length L)) L)) [0..<k]) = take (k * q) L"
proof (induction k)
  case 0
  show ?case by simp
next
  case (Suc k)
  have "take (k * q) L @ drop (k * q) (take (min ((k + 1) * q) (length L)) L) = take (Suc k * q) L"
  proof -
    have "take (min ((k + 1) * q) (length L)) L = take ((k + 1) * q) L" by (simp add: min_def)
    moreover have "take (k * q) L @ drop (k * q) (take ((k + 1) * q) L) = take ((k + 1) * q) L"
      by (metis append_take_drop_id take_take min_def le_add1 add.commute mult_Suc Suc_eq_plus1 min.absorb1 le_add2)
    ultimately show ?thesis by simp
  qed
  with Suc show ?case by simp
qed

lemma ceil_aux:
  fixes a p :: int
  assumes "0 < p"
  shows "(a + p - 1) div p = - (- a div p)"
proof (cases "a mod p = 0")
  case True
  then obtain q where q: "a = p * q" by auto
  have "(p * q + (p - 1)) div p = q + (p - 1) div p"
    using assms by simp
  moreover have "(p - 1) div p = 0" using assms by (simp add: div_pos_pos_trivial)
  moreover have "- a div p = - q"
  proof -
    have "- a = p * (- q)" using q by simp
    then show ?thesis using assms by (metis nonzero_mult_div_cancel_left less_irrefl)
  qed
  moreover have "a + p - 1 = p * q + (p - 1)" using q by simp
  ultimately show ?thesis by (simp only: add_0_right minus_minus)
next
  case False
  define q where "q = a div p"
  define r where "r = a mod p"
  have a: "a = p * q + r" by (simp add: q_def r_def)
  have r: "0 < r" "r < p" using False assms by (auto simp: r_def intro: le_neq_trans)
  have "a + p - 1 = p * (q + 1) + (r - 1)" using a by (simp add: algebra_simps)
  then have "(a + p - 1) div p = (q + 1) + (r - 1) div p"
    using assms by (metis div_mult_self2 add.commute less_irrefl)
  moreover have "(r - 1) div p = 0" using r by (simp add: div_pos_pos_trivial)
  moreover have "- a div p = - q - 1"
    using False assms by (simp add: zdiv_zminus1_eq_if q_def)
  ultimately show ?thesis by simp
qed

lemma ceiling_pages:
  assumes "0 < p"
  shows "(int n + p - 1) div p = \<lceil>real n / real_of_int p\<rceil>"
proof -
  have "\<lceil>real_of_int (int n) / real_of_int p\<rceil> = - (- int n div p)"
    by (rule ceiling_divide_eq_div)
  then show ?thesis using ceil_aux [OF assms, of "int n"] by simp
qed

lemma pages_cover:
  assumes "0 < p"
  shows "length L \<le> nat \<lceil>real (length L) / real_of_int p\<rceil> * nat p"
proof -
  define c where "c = \<lceil>real (length L) / real_of_int p\<rceil>"
  have "(0::real) \<le> real (length L) / real_of_int p" using assms by simp
  then have c0: "0 \<le> c" unfolding c_def by (metis ceiling_mono ceiling_zero)
  have "real (length L) / real_of_int p \<le> real_of_int c" by (simp add: c_def)
  then have "real (length L) \<le> real_of_int c * real_of_int p"
    using assms by (simp add: pos_divide_le_eq)
  then have "int (length L) \<le> c * p"
    by (metis of_int_le_iff of_int_mult of_int_of_nat_eq)
  then have "length L \<le> nat (c * p)" by simp
  then show ?thesis using c0 assms by (simp add: c_def nat_mult_distrib)
qed

text \<open>
  Claim C4. For a filtered list \<open>L\<close> and a page size \<open>p > 0\<close>: the page of index \<open>i\<close> holds
  the elements of \<open>L\<close> at the positions from \<open>i * p\<close> up to, not including, the smaller of
  \<open>(i + 1) * p\<close> and the length; \<open>total_pages\<close> is the ceiling of length by \<open>p\<close>; and the
  pages of the indices below \<open>total_pages\<close>, one after the other, are \<open>L\<close>.
\<close>

theorem pagination_partition:
  assumes "0 < p"
  shows "page_slice L (int i) p =
           map (\<lambda>j. L ! j) [i * nat p ..< min ((i + 1) * nat p) (length L)]
       \<and> total_pages E L p = Inr \<lceil>real (length L) / real_of_int p\<rceil>
       \<and> concat (map (\<lambda>i. page_slice L (int i) p)
                  [0 ..< nat \<lceil>real (length L) / real_of_int p\<rceil>]) = L"
proof (intro conjI)
  show "page_slice L (int i) p =
           map (\<lambda>j. L ! j) [i * nat p ..< min ((i + 1) * nat p) (length L)]"
    by (simp add: page_slice_nat [OF assms] drop_take_nth)
  show "total_pages E L p = Inr \<lceil>real (length L) / real_of_int p\<rceil>"
    using assms by (simp add: total_pages_def ceiling_pages)
  have "concat (map (\<lambda>i. page_slice L (int i) p)
                  [0 ..< nat \<lceil>real (length L) / real_of_int p\<rceil>])
        = take (nat \<lceil>real (length L) / real_of_int p\<rceil> * nat p) L"
    by (simp only: page_slice_nat [OF assms] concat_pages_take)
  then show "concat (map (\<lambda>i. page_slice L (int i) p)
                  [0 ..< nat \<lceil>real (length L) / real_of_int p\<rceil>]) = L"
    using pages_cover [OF assms, of L] by simp
qed

theorem pagination_partition_witness:
  "(0::int) < 2
   \<and> page_slice [10, 20, 30, 40, 50 :: int] (int 1) 2 =
       map (\<lambda>j. [10, 20, 30, 40, 50 :: int] ! j) [1 * nat 2 ..< min ((1 + 1) * nat 2) (length [10, 20, 30, 40, 50 :: int])]
   \<and> page_slice [10, 20, 30, 40, 50 :: int] 0 2 = [10, 20]
   \<and> page_slice [10, 20, 30, 40, 50 :: int] 1 2 = [30, 40]
   \<and> page_slice [10, 20, 30, 40, 50 :: int] 2 2 = [50]
   \<and> total_pages E0 [10, 20, 30, 40, 50 :: int] 2 = Inr 3"
proof -
  have h: "(0::int) < 2" by simp
  have e: "page_slice [10, 20, 30, 40, 50 :: int] 0 2 = [10, 20]"
      "page_slice [10, 20, 30, 40, 50 :: int] 1 2 = [30, 40]"
      "page_slice [10, 20, 30, 40, 50 :: int] 2 2 = [50]"
      "total_pages E0 [10, 20, 30, 40, 50 :: int] 2 = Inr 3"
    by (simp_all add: page_slice_def py_slice_def total_pages_def)
  show ?thesis
    using pagination_partition [OF h, of "[10, 20, 30, 40, 50 :: int]" 1 E0] h e
    by blast
qed

subsection \<open>Namespaces\<close>

lemma replace_slash_id: "CHR ''/'' \<notin> set n \<Longrightarrow> replace_slash n = n"
  by (induction n) (auto simp: replace_slash_def)

lemma join_slash_snoc:
  "join_slash (ps @ [n]) = (if ps = [] then n else join_slash ps @ CHR ''/'' # n)"
  by (induction ps rule: join_slash.induct) auto

lemma get_page_prefix_child:
  assumes "CHR ''/'' \<notin> set n"
  shows "get_page_prefix (child parent n) = prefix_stem parent @ n @ ''_''"
proof (cases "parts parent = []")
  case True
  then show ?thesis
    using assms
    by (simp add: get_page_prefix_def child_def as_posix_def prefix_stem_def replace_slash_id)
next
  case False
  have "replace_slash (join_slash (parts parent) @ CHR ''/'' # n) =
        replace_slash (join_slash (parts parent)) @ CHR ''_'' # n"
    using replace_slash_id [OF assms] by (simp add: replace_slash_def)
  then show ?thesis
    using False
    by (simp add: get_page_prefix_def child_def as_posix_def join_slash_snoc prefix_stem_def)
qed

lemma fields_no_tail: "no_field_tail (map fst SESSION_STATE_VARS)"
  unfolding no_field_tail_def SESSION_STATE_VARS_def by simp

lemma tail_shape:
  assumes "k2 = us @ CHR ''_'' # k1"
  shows "length k1 < length k2 \<and> drop (length k2 - Suc (length k1)) k2 = CHR ''_'' # k1"
  using assms by simp

lemma keys_apart_aux:
  assumes eq: "n1 @ CHR ''_'' # k1 = n2 @ CHR ''_'' # k2"
    and len: "length n1 < length n2"
  shows "\<exists>us. k1 = us @ CHR ''_'' # k2"
proof -
  from eq obtain us where us: "n2 = n1 @ us" "CHR ''_'' # k1 = us @ CHR ''_'' # k2"
    using len by (auto simp: append_eq_append_conv2)
  from us(1) len have "us \<noteq> []" by auto
  then obtain c us' where "us = c # us'" by (cases us) auto
  with us(2) have "k1 = us' @ CHR ''_'' # k2" by simp
  then show ?thesis by blast
qed

lemma keys_apart:
  assumes eq: "n1 @ CHR ''_'' # k1 = n2 @ CHR ''_'' # k2"
    and k1: "k1 \<in> set ks" and k2: "k2 \<in> set ks" and nt: "no_field_tail ks"
  shows "n1 = n2"
proof -
  have no: "\<And>a b us. a \<in> set ks \<Longrightarrow> b \<in> set ks \<Longrightarrow> b \<noteq> us @ CHR ''_'' # a"
    using nt tail_shape unfolding no_field_tail_def list_all_iff by blast
  consider "length n1 < length n2" | "length n2 < length n1" | "length n1 = length n2"
    by linarith
  then show ?thesis
  proof cases
    case 1
    then show ?thesis using keys_apart_aux [OF eq] no k1 k2 by blast
  next
    case 2
    then show ?thesis using keys_apart_aux [OF eq [symmetric]] no k1 k2 by blast
  next
    case 3
    then show ?thesis using eq by simp
  qed
qed

lemma init_loop_other:
  "(\<And>k. k \<in> set (map fst vars) \<Longrightarrow> key \<noteq> p @ k) \<Longrightarrow> init_loop p vars s key = s key"
  by (induction vars arbitrary: s) auto

text \<open>
  The prefix is not injective on arbitrary paths: the slash is replaced by the underscore
  that a name may hold. The entries of one directory have no slash in their names.
\<close>

lemma get_page_prefix_not_injective:
  "get_page_prefix (Path [''a'', ''b'']) = get_page_prefix (Path [''a_b''])"
  by (simp add: get_page_prefix_def as_posix_def replace_slash_def)

text \<open>
  The dashboards are the entries of one parent directory (the program takes them from
  \<^verbatim>\<open>iterdir\<close> on \<open>assets\<close>), so their names hold no slash. For two different entries the
  prefixes differ, and the keys of any two of the twelve fields of \<open>SESSION_STATE_VARS\<close>
  differ: neither the initialisation nor an update of such a field under the prefix of the
  one changes what the other reads under any of these fields. The keys of the widgets are
  not among them.
\<close>

lemma field_keys_disjoint:
  assumes "n1 \<noteq> n2" and "CHR ''/'' \<notin> set n1" and "CHR ''/'' \<notin> set n2"
    and "k1 \<in> set (map fst SESSION_STATE_VARS)" and "k2 \<in> set (map fst SESSION_STATE_VARS)"
  shows "get_page_prefix (child parent n1) \<noteq> get_page_prefix (child parent n2)
       \<and> get_page_prefix (child parent n1) @ k1 \<noteq> get_page_prefix (child parent n2) @ k2
       \<and> session (init_session_state (get_page_prefix (child parent n1)) w)
            (get_page_prefix (child parent n2) @ k2)
          = session w (get_page_prefix (child parent n2) @ k2)
       \<and> session (update_session_state (get_page_prefix (child parent n1)) k1 v w)
            (get_page_prefix (child parent n2) @ k2)
          = session w (get_page_prefix (child parent n2) @ k2)"
proof -
  let ?p1 = "get_page_prefix (child parent n1)" and ?p2 = "get_page_prefix (child parent n2)"
  have p1: "?p1 = prefix_stem parent @ n1 @ ''_''" by (rule get_page_prefix_child [OF assms(2)])
  have p2: "?p2 = prefix_stem parent @ n2 @ ''_''" by (rule get_page_prefix_child [OF assms(3)])
  have a: "?p1 \<noteq> ?p2" using assms(1) by (simp add: p1 p2)
  have keys: "?p1 @ k \<noteq> ?p2 @ k2" if "k \<in> set (map fst SESSION_STATE_VARS)" for k
  proof
    assume "?p1 @ k = ?p2 @ k2"
    then have "n1 @ CHR ''_'' # k = n2 @ CHR ''_'' # k2" by (simp add: p1 p2)
    then have "n1 = n2" using keys_apart that assms(5) fields_no_tail by blast
    then show False using assms(1) by simp
  qed
  have b: "?p1 @ k1 \<noteq> ?p2 @ k2" by (rule keys [OF assms(4)])
  have "init_loop ?p1 SESSION_STATE_VARS (session w) (?p2 @ k2) = session w (?p2 @ k2)"
    by (rule init_loop_other) (use keys in metis)
  then have c: "session (init_session_state ?p1 w) (?p2 @ k2) = session w (?p2 @ k2)"
    by (simp add: init_session_state_def)
  have d: "session (update_session_state ?p1 k1 v w) (?p2 @ k2) = session w (?p2 @ k2)"
    using b by (simp add: update_session_state_def)
  show ?thesis using a b c d by blast
qed

subsection \<open>The page index\<close>

lemma sales_prefix_eval: "sales_prefix = ''page_assets_sales_''"
  by (simp add: sales_prefix_def sales_def get_page_prefix_def as_posix_def replace_slash_def)

lemma w_sales_page_number: "session w_sales (sales_prefix @ ''page_number'') = Some (VInt 2)"
  by (simp add: w_sales_def update_session_state_def)

lemma page_slice_empty_iff:
  assumes "0 \<le> n" and "0 < p"
  shows "page_slice fs n p = [] \<longleftrightarrow> int (length fs) \<le> n * p"
proof -
  obtain i where i: "n = int i" using assms(1) by (metis nat_0_le)
  obtain q where q: "p = int q" and q0: "0 < q" using assms(2) by (metis nat_0_le less_imp_le zero_less_nat_eq nat_int)
  have "page_slice fs (int i) p = drop (i * q) (take (min ((i + 1) * q) (length fs)) fs)"
    using page_slice_nat [OF assms(2), of fs i] by (simp add: q)
  moreover have "min ((i + 1) * q) (length fs) \<le> i * q \<longleftrightarrow> length fs \<le> i * q"
    using q0 by (auto simp: min_def)
  moreover have "int (length fs) \<le> int i * int q \<longleftrightarrow> length fs \<le> i * q"
    by (metis of_nat_le_iff of_nat_mult)
  ultimately show ?thesis by (simp add: i q)
qed

lemma handle_error_other:
  "k \<noteq> ''error'' \<Longrightarrow> session (handle_error pp m t w) (pp @ k) = session w (pp @ k)"
  by (simp add: handle_error_def update_session_state_def emit_def Let_def)

text \<open>
  Claim C2, as the code has it. The pagination logic never clamps or recomputes the page
  index: the entry \<open>page_number\<close> of the session state is left as it is. For a filtered list
  that is not empty, a page size \<open>p > 0\<close> and a page index \<open>n \<ge> 0\<close>, the page rendered is
  the slice of \<open>page_slice\<close>; it has an element exactly when \<open>n * p\<close> is at most the length
  minus one, and otherwise the render reports the info message of the empty page and clears
  the flag \<open>loading_all_charts\<close>.
\<close>

theorem main_pagination_page:
  assumes "session w (pp @ ''page_number'') = Some (VInt n)" and "0 \<le> n" and "0 < p"
    and "fs \<noteq> []"
  shows "main_pagination E pp fs p w =
           (if n * p \<le> int (length fs) - 1 then (Inr (page_slice fs n p), w)
            else (Inr [], update_session_state pp ''loading_all_charts'' (VBool False)
                            (handle_error pp ''No charts match the selected filters.'' ''info'' w)))
       \<and> (page_slice fs n p \<noteq> [] \<longleftrightarrow> n * p \<le> int (length fs) - 1)
       \<and> session (snd (main_pagination E pp fs p w)) (pp @ ''page_number'') = Some (VInt n)"
proof -
  have e: "page_slice fs n p = [] \<longleftrightarrow> \<not> n * p \<le> int (length fs) - 1"
    using page_slice_empty_iff [OF assms(2,3), of fs] by auto
  have l: "lookup_int E (session w) (pp @ ''page_number'') = Inr n"
    by (simp add: lookup_int_def lookup_def assms(1))
  have m: "main_pagination E pp fs p w =
           (if n * p \<le> int (length fs) - 1 then (Inr (page_slice fs n p), w)
            else (Inr [], update_session_state pp ''loading_all_charts'' (VBool False)
                            (handle_error pp ''No charts match the selected filters.'' ''info'' w)))"
    using e by (simp add: main_pagination_def l Let_def)
  have s: "session (snd (main_pagination E pp fs p w)) (pp @ ''page_number'') = Some (VInt n)"
    by (simp add: m assms(1) update_session_state_def handle_error_other)
  show ?thesis using m e s by blast
qed

theorem main_pagination_page_witness:
  "session w_sales (sales_prefix @ ''page_number'') = Some (VInt 2) \<and> (0::int) \<le> 2 \<and> (0::int) < 1
   \<and> [revenue_q1, revenue_q2, users_q1] \<noteq> []
   \<and> main_pagination E0 sales_prefix [revenue_q1, revenue_q2, users_q1] 1 w_sales =
        (Inr [users_q1], w_sales)"
proof -
  have h1: "session w_sales (sales_prefix @ ''page_number'') = Some (VInt 2)"
    by (rule w_sales_page_number)
  have h2: "(0::int) \<le> 2" and h3: "(0::int) < 1" by simp_all
  have h4: "[revenue_q1, revenue_q2, users_q1] \<noteq> []" by simp
  have p: "page_slice [revenue_q1, revenue_q2, users_q1] 2 1 = [users_q1]"
    by (simp add: page_slice_def py_slice_def)
  show ?thesis
    using main_pagination_page [OF h1 h2 h3 h4, of E0] h1 p by simp
qed

text \<open>
  Claim C2, as it is stated, fails: on the third page of a list that a new search has cut
  to three files (page size 5), the render uses the empty page, and the page index stays 2,
  beyond the last position of the list.
\<close>

theorem page_index_not_clamped:
  "fst (main_pagination E0 sales_prefix [revenue_q1, revenue_q2, users_q1] 5 w_sales) = Inr []
   \<and> session (snd (main_pagination E0 sales_prefix [revenue_q1, revenue_q2, users_q1] 5 w_sales))
        (sales_prefix @ ''page_number'') = Some (VInt 2)
   \<and> [revenue_q1, revenue_q2, users_q1] \<noteq> []
   \<and> \<not> ((2::int) * 5 \<le> int (length [revenue_q1, revenue_q2, users_q1]) - 1)"
proof -
  have l: "lookup_int E0 (session w_sales) (sales_prefix @ ''page_number'') = Inr 2"
    by (simp add: lookup_int_def lookup_def w_sales_page_number)
  have p: "page_slice [revenue_q1, revenue_q2, users_q1] 2 5 = []"
    by (simp add: page_slice_def py_slice_def)
  have m: "main_pagination E0 sales_prefix [revenue_q1, revenue_q2, users_q1] 5 w_sales =
      (Inr [], update_session_state sales_prefix ''loading_all_charts'' (VBool False)
                 (handle_error sales_prefix ''No charts match the selected filters.'' ''info'' w_sales))"
    by (simp add: main_pagination_def l p)
  show ?thesis
    by (simp add: m update_session_state_def handle_error_other w_sales_page_number)
qed

subsection \<open>Catalog scan\<close>

lemma get_file_metadata_class:
  "get_file_metadata E f = Inl e \<Longrightarrow> class_of e = Exception"
  by (auto simp: get_file_metadata_def split: sum.splits if_splits)

lemma map_exn_all_ok:
  assumes "\<And>f. f \<in> set fs \<Longrightarrow> \<exists>m. g f = Inr m"
  shows "\<exists>ms. map_exn g fs = Inr ms \<and> length ms = length fs \<and>
              (\<forall>i<length fs. g (fs ! i) = Inr (ms ! i))"
  using assms
proof (induction fs)
  case Nil
  show ?case by simp
next
  case (Cons f fs)
  from Cons.prems obtain m where m: "g f = Inr m" by auto
  from Cons obtain ms where ms: "map_exn g fs = Inr ms" "length ms = length fs"
    "\<forall>i<length fs. g (fs ! i) = Inr (ms ! i)" by auto
  have "map_exn g (f # fs) = Inr (m # ms)" by (simp add: m ms(1))
  moreover have "\<forall>i<length (f # fs). g ((f # fs) ! i) = Inr ((m # ms) ! i)"
    using m ms(3) by (auto simp: nth_Cons split: nat.splits)
  ultimately show ?case using ms(2) by auto
qed

lemma map_exn_first_failure:
  assumes "f \<in> set fs" and "g f = Inl e"
  shows "\<exists>f' e'. f' \<in> set fs \<and> g f' = Inl e' \<and> map_exn g fs = Inl e'"
  using assms
proof (induction fs)
  case Nil
  then show ?case by simp
next
  case (Cons a fs)
  show ?case
  proof (cases "g a")
    case (Inl e1)
    then show ?thesis by auto
  next
    case (Inr m)
    then have "f \<in> set fs" using Cons.prems by auto
    then obtain f' e' where "f' \<in> set fs" "g f' = Inl e'" "map_exn g fs = Inl e'"
      using Cons.IH Cons.prems(2) by blast
    then show ?thesis using Inr by auto
  qed
qed

lemma main_scan_failure:
  assumes "session w (pp @ ''all_files'') = Some v" and "\<not> truthy v"
    and "is_dir E dir" and "glob_json E dir = Inr names"
    and "map_exn (get_file_metadata E) (map (child dir) names) = Inl e"
  shows "main_scan E dir pp w = (Inl e, w)"
proof -
  have "names \<noteq> []" using assms(5) by auto
  then show ?thesis
    using assms by (simp add: main_scan_def lookup_def get_all_json_files_def)
qed


lemma w_init_all_files: "session w_init (sales_prefix @ ''all_files'') = Some (VFiles [])"
  by (simp add: w_init_def init_session_state_def SESSION_STATE_VARS_def w0_def)

lemma w_init_page: "page w_init = []"
  by (simp add: w_init_def init_session_state_def w0_def)

lemmas path_eval = child_def sales_def path_name_def as_posix_def

text \<open>
  Claim C3, as the code has it. When the stat call on a file fails with
  \<^verbatim>\<open>FileNotFoundError\<close>, \<open>get_file_metadata\<close> returns the name, the timestamp \<open>N/A\<close>,
  the size 0 and the path, and a scan whose files all either pass or fail in this way
  yields one entry for each file. Any other exception of the extraction (another failure of
  the stat call among them) leaves \<open>get_file_metadata\<close> as an \<open>Exception\<close> that names the
  file; it ends the whole scan: the catalog is not stored, the session state is unchanged,
  and the handler of \<open>main\<close> reports one error.
\<close>

theorem scan_error_policy:
  "(stat E f = Inl e \<and> class_of e = FileNotFoundError \<longrightarrow>
      get_file_metadata E f = Inr (path_name f, ''N/A'', 0, as_posix f))
   \<and> ((\<forall>f \<in> set fs. (\<exists>e. stat E f = Inl e \<and> class_of e = FileNotFoundError) \<or>
                      (\<exists>s t. stat E f = Inr s \<and> strftime E (st_mtime s) = Inr t)) \<longrightarrow>
       (\<exists>ms. map_exn (get_file_metadata E) fs = Inr ms \<and> length ms = length fs))
   \<and> (g \<in> set (map (child dir) names) \<and> get_file_metadata_try E g = Inl e2 \<and>
       class_of e2 \<noteq> FileNotFoundError \<and> session w (pp @ ''all_files'') = Some v \<and>
       \<not> truthy v \<and> is_dir E dir \<and> glob_json E dir = Inr names \<longrightarrow>
       (\<exists>f' e3. f' \<in> set (map (child dir) names) \<and> get_file_metadata_try E f' = Inl e3 \<and>
          main_scan E dir pp w =
            (Inl (Raise Exception
                   (''Error getting metadata for '' @ path_name f' @ '': '' @ str_of e3)), w) \<and>
          main_except pp (main_scan E dir pp w) =
            handle_error pp
              (''An unexpected error occurred: '' @
               ''Error getting metadata for '' @ path_name f' @ '': '' @ str_of e3) ''error'' w))"
proof (intro conjI impI)
  assume "stat E f = Inl e \<and> class_of e = FileNotFoundError"
  then show "get_file_metadata E f = Inr (path_name f, ''N/A'', 0, as_posix f)"
    by (simp add: get_file_metadata_def get_file_metadata_try_def)
next
  assume a: "\<forall>f \<in> set fs. (\<exists>e. stat E f = Inl e \<and> class_of e = FileNotFoundError) \<or>
                      (\<exists>s t. stat E f = Inr s \<and> strftime E (st_mtime s) = Inr t)"
  have "\<exists>m. get_file_metadata E f = Inr m" if "f \<in> set fs" for f
    using a that by (auto simp: get_file_metadata_def get_file_metadata_try_def)
  then show "\<exists>ms. map_exn (get_file_metadata E) fs = Inr ms \<and> length ms = length fs"
    using map_exn_all_ok [of fs "get_file_metadata E"] by blast
next
  assume a: "g \<in> set (map (child dir) names) \<and> get_file_metadata_try E g = Inl e2 \<and>
       class_of e2 \<noteq> FileNotFoundError \<and> session w (pp @ ''all_files'') = Some v \<and>
       \<not> truthy v \<and> is_dir E dir \<and> glob_json E dir = Inr names"
  then have "\<exists>e. get_file_metadata E g = Inl e"
    by (simp add: get_file_metadata_def)
  then obtain f' e' where f': "f' \<in> set (map (child dir) names)"
      "get_file_metadata E f' = Inl e'"
      "map_exn (get_file_metadata E) (map (child dir) names) = Inl e'"
    using a map_exn_first_failure [of g "map (child dir) names" "get_file_metadata E"] by blast
  from f'(2) obtain e3 where e3: "get_file_metadata_try E f' = Inl e3"
      "e' = Raise Exception (''Error getting metadata for '' @ path_name f' @ '': '' @ str_of e3)"
    by (auto simp: get_file_metadata_def split: sum.splits if_splits)
  have m: "main_scan E dir pp w = (Inl e', w)"
    using a f'(3) by (intro main_scan_failure) auto
  have "main_except pp (main_scan E dir pp w) =
      handle_error pp (''An unexpected error occurred: '' @ str_of e') ''error'' w"
    by (simp add: m main_except_def)
  then show "\<exists>f' e3. f' \<in> set (map (child dir) names) \<and> get_file_metadata_try E f' = Inl e3 \<and>
          main_scan E dir pp w =
            (Inl (Raise Exception
                   (''Error getting metadata for '' @ path_name f' @ '': '' @ str_of e3)), w) \<and>
          main_except pp (main_scan E dir pp w) =
            handle_error pp
              (''An unexpected error occurred: '' @
               ''Error getting metadata for '' @ path_name f' @ '': '' @ str_of e3) ''error'' w"
    using f'(1) e3 m by auto
qed

lemma E1_scan:
  "main_scan E1 sales sales_prefix w_init =
     (Inl (Raise Exception
        ''Error getting metadata for revenue_q2.json: [Errno 13] Permission denied''), w_init)"
proof -
  have "map_exn (get_file_metadata E1)
          (map (child sales) [''revenue_q1.json'', ''revenue_q2.json'', ''users_q1.json'']) =
        Inl (Raise Exception
          ''Error getting metadata for revenue_q2.json: [Errno 13] Permission denied'')"
    by (simp add: get_file_metadata_def get_file_metadata_try_def E1_def E0_def path_eval)
  then show ?thesis
    by (intro main_scan_failure [where v = "VFiles []" and
          names = "[''revenue_q1.json'', ''revenue_q2.json'', ''users_q1.json'']"])
       (simp_all add: w_init_all_files E1_def E0_def)
qed

text \<open>
  Claim C3, as it is stated, fails: the stat call on the second of three files is refused
  (the other two pass). There is no fallback to \<open>N/A\<close>, the scan ends with the exception,
  no file reaches the catalog, and one error box is shown for the whole scan.
\<close>

theorem scan_aborts_on_stat_error:
  "stat E1 (child sales ''revenue_q1.json'') = Inr \<lparr>st_mtime = 0, st_size = 120\<rparr>
   \<and> stat E1 (child sales ''revenue_q2.json'') = Inl (Raise OtherError ''[Errno 13] Permission denied'')
   \<and> stat E1 (child sales ''users_q1.json'') = Inr \<lparr>st_mtime = 0, st_size = 120\<rparr>
   \<and> main_scan E1 sales sales_prefix w_init =
       (Inl (Raise Exception
          ''Error getting metadata for revenue_q2.json: [Errno 13] Permission denied''), w_init)
   \<and> session w_init (sales_prefix @ ''all_files'') = Some (VFiles [])
   \<and> page (main_except sales_prefix (main_scan E1 sales sales_prefix w_init)) =
       [Error_box ''An unexpected error occurred: Error getting metadata for revenue_q2.json: [Errno 13] Permission denied'',
        Log_error ''Error: An unexpected error occurred: Error getting metadata for revenue_q2.json: [Errno 13] Permission denied'']"
proof -
  have a: "stat E1 (child sales ''revenue_q1.json'') = Inr \<lparr>st_mtime = 0, st_size = 120\<rparr>"
      "stat E1 (child sales ''revenue_q2.json'') = Inl (Raise OtherError ''[Errno 13] Permission denied'')"
      "stat E1 (child sales ''users_q1.json'') = Inr \<lparr>st_mtime = 0, st_size = 120\<rparr>"
    by (simp_all add: E1_def E0_def path_eval)
  have b: "page (main_except sales_prefix (main_scan E1 sales sales_prefix w_init)) =
       [Error_box ''An unexpected error occurred: Error getting metadata for revenue_q2.json: [Errno 13] Permission denied'',
        Log_error ''Error: An unexpected error occurred: Error getting metadata for revenue_q2.json: [Errno 13] Permission denied'']"
    by (simp add: E1_scan main_except_def handle_error_def emit_def update_session_state_def
        w_init_page)
  show ?thesis using a b E1_scan w_init_all_files by simp
qed

theorem scan_error_policy_witness:
  "stat E0 (child sales ''revenue_q2.json'') =
       Inl (Raise FileNotFoundError ''[Errno 2] No such file or directory'')
   \<and> get_file_metadata E0 (child sales ''revenue_q2.json'') =
       Inr (''revenue_q2.json'', ''N/A'', 0, ''assets/sales/revenue_q2.json'')
   \<and> (\<exists>ms. map_exn (get_file_metadata E0)
              (map (child sales) [''revenue_q1.json'', ''revenue_q2.json'', ''users_q1.json'']) = Inr ms
          \<and> length ms =
              length (map (child sales) [''revenue_q1.json'', ''revenue_q2.json'', ''users_q1.json'']))
   \<and> (\<exists>f' e3. get_file_metadata_try E1 f' = Inl e3 \<and>
         main_scan E1 sales sales_prefix w_init =
           (Inl (Raise Exception
                   (''Error getting metadata for '' @ path_name f' @ '': '' @ str_of e3)), w_init))"
proof -
  have h1: "stat E0 (child sales ''revenue_q2.json'') =
       Inl (Raise FileNotFoundError ''[Errno 2] No such file or directory'')"
    by (simp add: E0_def)
  have n: "path_name (child sales ''revenue_q2.json'') = ''revenue_q2.json''"
      "as_posix (child sales ''revenue_q2.json'') = ''assets/sales/revenue_q2.json''"
    by (simp_all add: path_eval)
  have h2: "\<forall>f \<in> set (map (child sales) [''revenue_q1.json'', ''revenue_q2.json'', ''users_q1.json'']).
      (\<exists>e. stat E0 f = Inl e \<and> class_of e = FileNotFoundError) \<or>
      (\<exists>s t. stat E0 f = Inr s \<and> strftime E0 (st_mtime s) = Inr t)"
    by (simp add: E0_def path_eval)
  have h3: "child sales ''revenue_q2.json'' \<in>
        set (map (child sales) [''revenue_q1.json'', ''revenue_q2.json'', ''users_q1.json''])
      \<and> get_file_metadata_try E1 (child sales ''revenue_q2.json'') =
          Inl (Raise OtherError ''[Errno 13] Permission denied'')
      \<and> class_of (Raise OtherError ''[Errno 13] Permission denied'') \<noteq> FileNotFoundError
      \<and> session w_init (sales_prefix @ ''all_files'') = Some (VFiles [])
      \<and> \<not> truthy (VFiles []) \<and> is_dir E1 sales
      \<and> glob_json E1 sales = Inr [''revenue_q1.json'', ''revenue_q2.json'', ''users_q1.json'']"
    by (simp add: get_file_metadata_try_def E1_def E0_def w_init_all_files)
  have t1: "get_file_metadata E0 (child sales ''revenue_q2.json'') =
       Inr (''revenue_q2.json'', ''N/A'', 0, ''assets/sales/revenue_q2.json'')"
    using scan_error_policy [of E0 "child sales ''revenue_q2.json''"
        "Raise FileNotFoundError ''[Errno 2] No such file or directory''"] h1 n
    by simp
  have t2: "\<exists>ms. map_exn (get_file_metadata E0)
              (map (child sales) [''revenue_q1.json'', ''revenue_q2.json'', ''users_q1.json'']) = Inr ms
          \<and> length ms =
              length (map (child sales) [''revenue_q1.json'', ''revenue_q2.json'', ''users_q1.json''])"
    using scan_error_policy [of E0 _ _
        "map (child sales) [''revenue_q1.json'', ''revenue_q2.json'', ''users_q1.json'']"] h2
    by blast
  have t3: "\<exists>f' e3. get_file_metadata_try E1 f' = Inl e3 \<and>
         main_scan E1 sales sales_prefix w_init =
           (Inl (Raise Exception
                   (''Error getting metadata for '' @ path_name f' @ '': '' @ str_of e3)), w_init)"
    using scan_error_policy [of E1 _ _ _ "child sales ''revenue_q2.json''" sales
        "[''revenue_q1.json'', ''revenue_q2.json'', ''users_q1.json'']"
        "Raise OtherError ''[Errno 13] Permission denied''" w_init sales_prefix "VFiles []"] h3
    by blast
  show ?thesis using h1 t1 t2 t3 by blast
qed

subsection \<open>Figure loader\<close>














lemma cache_put_page: "page (cache_put p c w) = page w"
  by (simp add: cache_put_def Let_def)





subsection \<open>Batch display\<close>












lemma display_all_charts_flag:
  "session (display_all_charts E pp fs h ua w) (pp @ ''loading_all_charts'') = Some (VBool False)"
  by (cases "display_all_charts_try E pp fs h ua w")
     (auto simp: display_all_charts_def update_session_state_def split: sum.splits)


lemma show_all_charts_button:
  assumes "session w (pp @ ''loading_all_charts'') = Some v"
  shows "fst (show_all_charts E pp fs h ua clicked w) = Inr ()
       \<and> session (snd (show_all_charts E pp fs h ua clicked w)) (pp @ ''cancel_loading'') =
           Some (VBool (clicked \<and> truthy v))
       \<and> (\<not> truthy v \<longrightarrow>
           session (snd (show_all_charts E pp fs h ua clicked w)) (pp @ ''loading_all_charts'') =
             Some (VBool False))"
proof (cases "truthy v")
  case True
  then show ?thesis
    using assms
    by (auto simp: show_all_charts_def cancel_button_def lookup_def Let_def
        update_session_state_def)
next
  case False
  let ?w1 = "display_all_charts E pp fs h ua
               (update_session_state pp ''loading_all_charts'' (VBool True) w)"
  have f: "session ?w1 (pp @ ''loading_all_charts'') = Some (VBool False)"
    by (rule display_all_charts_flag)
  have "show_all_charts E pp fs h ua clicked w = cancel_button E pp clicked ?w1"
    using assms False by (simp add: show_all_charts_def lookup_def)
  moreover have "cancel_button E pp clicked ?w1 =
      (Inr (), ?w1\<lparr>session := (session ?w1)(pp @ ''cancel_loading'' \<mapsto> VBool False)\<rparr>)"
    using f by (simp add: cancel_button_def lookup_def Let_def)
  ultimately show ?thesis using False f by simp
qed








subsection \<open>The key of the cancel button\<close>

lemma dash_eval: "dash_x = ''page_assets_x_''" "dash_x_cancel = ''page_assets_x_cancel_''"
  by (simp_all add: dash_x_def dash_x_cancel_def assets_def get_page_prefix_def child_def
      as_posix_def replace_slash_def)

lemma w_x_session:
  "session (init_session_state dash_x w0) (dash_x @ ''loading_all_charts'') = Some (VBool False)"
  "session (init_session_state dash_x w0) (dash_x_cancel @ ''loading'') = None"
  by (simp_all add: dash_eval init_session_state_def SESSION_STATE_VARS_def w0_def)

text \<open>
  Claim C9. The prefixes of two different dashboards differ, but their keys are not kept
  apart: for the directories \<open>x\<close> and \<open>x_cancel\<close> under \<open>assets\<close>, the key of the cancel
  button of \<open>x\<close> is the key of the field \<open>loading\<close> of \<open>x_cancel\<close>. A run of the branch
  "Show All Charts" of \<open>x\<close> writes the value of its button where \<open>x_cancel\<close> had no entry, and
  \<open>x_cancel\<close> reads that value as its field \<open>loading\<close>.
\<close>

theorem cancel_button_key_collision:
  "child assets ''x'' \<noteq> child assets ''x_cancel''
   \<and> dash_x \<noteq> dash_x_cancel
   \<and> ''loading'' \<in> set (map fst SESSION_STATE_VARS)
   \<and> dash_x @ ''cancel_loading'' = dash_x_cancel @ ''loading''
   \<and> session (init_session_state dash_x w0) (dash_x_cancel @ ''loading'') = None
   \<and> session (snd (show_all_charts E0 dash_x five 600 False False (init_session_state dash_x w0)))
        (dash_x_cancel @ ''loading'') = Some (VBool False)
   \<and> lookup E0
        (session (snd (show_all_charts E0 dash_x five 600 False False
                         (init_session_state dash_x w0))))
        (dash_x_cancel @ ''loading'') = Inr (VBool False)"
proof -
  have k: "dash_x @ ''cancel_loading'' = dash_x_cancel @ ''loading''"
    by (simp add: dash_eval)
  have a: "child assets ''x'' \<noteq> child assets ''x_cancel''" "dash_x \<noteq> dash_x_cancel"
      "''loading'' \<in> set (map fst SESSION_STATE_VARS)"
    by (simp_all add: child_def dash_eval SESSION_STATE_VARS_def)
  have b: "session (snd (show_all_charts E0 dash_x five 600 False False
                           (init_session_state dash_x w0)))
        (dash_x @ ''cancel_loading'') = Some (VBool False)"
    using show_all_charts_button [OF w_x_session(1), of E0 five 600 False False] by simp
  then have c: "session (snd (show_all_charts E0 dash_x five 600 False False
                           (init_session_state dash_x w0)))
        (dash_x_cancel @ ''loading'') = Some (VBool False)"
    by (simp only: k)
  then have d: "lookup E0
        (session (snd (show_all_charts E0 dash_x five 600 False False
                         (init_session_state dash_x w0))))
        (dash_x_cancel @ ''loading'') = Inr (VBool False)"
    by (simp add: lookup_def)
  show ?thesis using a k w_x_session(2) c d by blast
qed

end
